theory Spec2Isabelle
  imports Main "HOL-Library.Multiset" "HOL-Library.Char_ord" "HOL-Library.List_Lexorder" "HOL-Library.Product_Lexorder"
begin

section \<open>Values of a data frame\<close>

text \<open>
  A cell of the two spreadsheets is text or missing. pandas marks a missing value
  with NaN (or None in an object column); both are \<open>NaN\<close> here. Text is ASCII: a
  character above 127 is carried along unchanged and is no white space.
\<close>

datatype cell = NaN | Str string

text \<open>What \<^verbatim>\<open>json.loads\<close> returns. A dict keeps its keys in order of appearance.\<close>

datatype json = JNull | JBool bool | JNum int | JStr string
  | JArr "json list" | JObj "(string \<times> json) list"

datatype error =
    JSONDecodeError | TypeError | ValueError | AttributeError
  | NotFound | ConnectionError | QueryError
  | FileNotFoundError | FileExistsError | NotADirectoryError | IsADirectoryError

subsection \<open>Python string methods\<close>

text \<open>\<^verbatim>\<open>s.split(sep)\<close> for a separator of one character: always at least one segment.\<close>

fun str_split :: "char \<Rightarrow> string \<Rightarrow> string list" where
  "str_split sep [] = [[]]"
| "str_split sep (x # xs) =
     (if x = sep then [] # str_split sep xs
      else (case str_split sep xs of
              [] \<Rightarrow> [[x]]
            | w # ws \<Rightarrow> (x # w) # ws))"

text \<open>White space of \<^verbatim>\<open>str.strip()\<close> in the ASCII range: 9 to 13, 28 to 32.\<close>

definition is_space :: "char \<Rightarrow> bool" where
  "is_space c = (let n = (of_char c :: nat) in (9 \<le> n \<and> n \<le> 13) \<or> (28 \<le> n \<and> n \<le> 32))"

definition str_strip :: "string \<Rightarrow> string" where
  "str_strip s = rev (dropWhile is_space (rev (dropWhile is_space s)))"

definition upper_char :: "char \<Rightarrow> char" where
  "upper_char c = (let n = (of_char c :: nat) in
     if 97 \<le> n \<and> n \<le> 122 then char_of (n - 32) else c)"

definition str_upper :: "string \<Rightarrow> string" where
  "str_upper s = map upper_char s"

text \<open>
  The \<^verbatim>\<open>.str\<close> accessor of a column. A column that holds rows but no text at all
  has a numeric dtype, and the accessor raises AttributeError. A method of the
  accessor maps the text cells and leaves a missing cell missing.
\<close>

definition str_accessor :: "cell list \<Rightarrow> error + cell list" where
  "str_accessor col =
     (if col \<noteq> [] \<and> list_all (\<lambda>c. c = NaN) col then Inl AttributeError else Inr col)"

fun str_map :: "(string \<Rightarrow> string) \<Rightarrow> cell \<Rightarrow> cell" where
  "str_map f NaN = NaN"
| "str_map f (Str s) = Str (f s)"

text \<open>\<^verbatim>\<open>col.str.strip().str.upper()\<close> on one cell.\<close>

definition strip_upper :: "cell \<Rightarrow> cell" where
  "strip_upper c = str_map str_upper (str_map str_strip c)"

section \<open>Errors as values\<close>

definition bind_err :: "error + 'a \<Rightarrow> ('a \<Rightarrow> error + 'b) \<Rightarrow> error + 'b" where
  "bind_err m f = (case m of Inl e \<Rightarrow> Inl e | Inr x \<Rightarrow> f x)"

section \<open>The two sheets and the frames derived from them\<close>

text \<open>
  A row of the sheet \<^verbatim>\<open>Casemgr\<close>: the columns the code names (\<^verbatim>\<open>CASE_DATA\<close>,
  \<^verbatim>\<open>key\<close>, \<^verbatim>\<open>value\<close>) and the cells of its other columns, in column order.
\<close>

record casemgr_row =
  CASE_DATA :: cell
  key :: cell
  val :: cell
  casemgr_other :: "cell list"

text \<open>A row of the sheet \<^verbatim>\<open>JAWS DB\<close>.\<close>

record jaws_row =
  IDN_REQUEST :: cell
  CDE_JNL_STA :: cell
  jaws_other :: "cell list"

text \<open>
  A row of \<^verbatim>\<open>case_df\<close> as \<^verbatim>\<open>process_data\<close> returns it: \<^verbatim>\<open>CASE_DATA\<close> holds one
  entry of the exploded JSON value (\<open>None\<close> is the NaN that stands for an empty
  list), \<^verbatim>\<open>value\<close> is renamed \<^verbatim>\<open>Status\<close>, \<^verbatim>\<open>key\<close> is replaced by \<^verbatim>\<open>Symbol\<close> and
  \<^verbatim>\<open>Security ID\<close>.
\<close>

record case_rec =
  CASE_DATA_entry :: "json option"
  Status :: cell
  Symbol :: cell
  Security_ID :: cell
  case_other :: "cell list"

subsection \<open>\<^verbatim>\<open>case_df["CASE_DATA"].apply(json.loads)\<close>\<close>

text \<open>
  \<^verbatim>\<open>json.loads\<close> is the standard library's parser, a parameter \<open>loads\<close> here:
  \<open>None\<close> where it raises JSONDecodeError. On a cell that is no text it raises
  TypeError. \<^verbatim>\<open>apply\<close> calls it row by row and the first exception ends the run.
\<close>

definition json_loads :: "(string \<Rightarrow> json option) \<Rightarrow> cell \<Rightarrow> error + json" where
  "json_loads loads c =
     (case c of
        NaN \<Rightarrow> Inl TypeError
      | Str s \<Rightarrow> (case loads s of None \<Rightarrow> Inl JSONDecodeError | Some j \<Rightarrow> Inr j))"

fun apply_loads :: "(string \<Rightarrow> json option) \<Rightarrow> casemgr_row list \<Rightarrow> error + (json \<times> casemgr_row) list" where
  "apply_loads loads [] = Inr []"
| "apply_loads loads (r # rs) =
     bind_err (json_loads loads (CASE_DATA r)) (\<lambda>j.
     bind_err (apply_loads loads rs) (\<lambda>js. Inr ((j, r) # js)))"

subsection \<open>\<^verbatim>\<open>case_df.explode("CASE_DATA")\<close>\<close>

text \<open>
  A list gives one row per element, a dict one row per key, an empty list or
  dict one row holding NaN, any other value one row holding the value itself.
\<close>

fun explode_cell :: "json \<Rightarrow> json option list" where
  "explode_cell (JArr xs) = (if xs = [] then [None] else map Some xs)"
| "explode_cell (JObj kvs) = (if kvs = [] then [None] else map (\<lambda>kv. Some (JStr (fst kv))) kvs)"
| "explode_cell j = [Some j]"

definition explode :: "(json \<times> casemgr_row) list \<Rightarrow> (json option \<times> casemgr_row) list" where
  "explode df = concat (map (\<lambda>jr. map (\<lambda>e. (e, snd jr)) (explode_cell (fst jr))) df)"

subsection \<open>\<^verbatim>\<open>case_df["key"].str.split("3", expand=True)\<close>\<close>

text \<open>
  The number of segments a key contributes to the width of the expanded frame: a
  missing key counts as one.
\<close>

fun n_segments :: "cell \<Rightarrow> nat" where
  "n_segments NaN = 1"
| "n_segments (Str s) = length (str_split (CHR ''3'') s)"

text \<open>The expanded frame has as many columns as the longest row: none for no rows.\<close>

definition expand_width :: "cell list \<Rightarrow> nat" where
  "expand_width col = foldr (\<lambda>c w. max (n_segments c) w) col 0"

text \<open>A shorter row is filled up with missing values; a missing key is missing in every column.\<close>

fun expand_row :: "nat \<Rightarrow> cell \<Rightarrow> cell list" where
  "expand_row w NaN = replicate w NaN"
| "expand_row w (Str s) =
     (let segs = str_split (CHR ''3'') s in map Str segs @ replicate (w - length segs) NaN)"

definition str_split_expand :: "cell list \<Rightarrow> error + (nat \<times> cell list list)" where
  "str_split_expand col =
     bind_err (str_accessor col) (\<lambda>col.
       let w = expand_width col in Inr (w, map (expand_row w) col))"

text \<open>
  \<^verbatim>\<open>case_df[["colNull", "Symbol", "nullcol", "Security ID"]] = ...\<close>: assigning a
  frame to four column names raises ValueError (Columns must be same length as
  key) unless the frame has four columns.
\<close>

definition assign_four :: "nat \<times> cell list list \<Rightarrow> error + cell list list" where
  "assign_four fr = (if fst fr \<noteq> 4 then Inl ValueError else Inr (snd fr))"

text \<open>
  Rename \<^verbatim>\<open>value\<close> to \<^verbatim>\<open>Status\<close>, drop \<^verbatim>\<open>key\<close>, \<^verbatim>\<open>colNull\<close> and \<^verbatim>\<open>nullcol\<close>, strip and
  upper-case \<^verbatim>\<open>Security ID\<close>. The four new columns are object columns, on which
  the \<^verbatim>\<open>.str\<close> accessor does not raise.
\<close>

definition make_case_rec :: "(json option \<times> casemgr_row) \<Rightarrow> cell list \<Rightarrow> case_rec" where
  "make_case_rec er cols =
     \<lparr> CASE_DATA_entry = fst er,
       Status = val (snd er),
       Symbol = cols ! 1,
       Security_ID = strip_upper (cols ! 3),
       case_other = casemgr_other (snd er) \<rparr>"

definition normalize_jaws :: "jaws_row list \<Rightarrow> error + jaws_row list" where
  "normalize_jaws jaws_df =
     bind_err (str_accessor (map IDN_REQUEST jaws_df)) (\<lambda>col.
       Inr (map (\<lambda>r. r\<lparr>IDN_REQUEST := strip_upper (IDN_REQUEST r)\<rparr>) jaws_df))"

definition process_data ::
  "(string \<Rightarrow> json option) \<Rightarrow> jaws_row list \<Rightarrow> casemgr_row list \<Rightarrow> error + (case_rec list \<times> jaws_row list)" where
  "process_data loads jaws_data casemgr_data =
     bind_err (apply_loads loads casemgr_data) (\<lambda>loaded.
     let exploded = explode loaded in
     bind_err (str_split_expand (map (\<lambda>er. key (snd er)) exploded)) (\<lambda>fr.
     bind_err (assign_four fr) (\<lambda>cols.
     let case_df = map2 make_case_rec exploded cols in
     bind_err (normalize_jaws jaws_data) (\<lambda>jaws_df.
       Inr (case_df, jaws_df)))))"

section \<open>Merge\<close>

text \<open>
  A row of the merged frame: the columns of \<^verbatim>\<open>case_df\<close>, the columns of \<^verbatim>\<open>jaws_df\<close>
  and, once assigned, \<^verbatim>\<open>Recon Status\<close>. A side without a counterpart holds a missing
  value in each of its columns.
\<close>

record joined_row =
  case_side :: case_rec
  jaws_side :: jaws_row

record merged_row = joined_row +
  Recon_Status :: string

text \<open>
  The all-missing side of a row without counterpart. The other columns of a frame
  are known from its rows, so that a frame without rows contributes none.
\<close>

definition absent_case :: "case_rec list \<Rightarrow> case_rec" where
  "absent_case case_df =
     \<lparr> CASE_DATA_entry = None, Status = NaN, Symbol = NaN, Security_ID = NaN,
       case_other = (case case_df of [] \<Rightarrow> [] | r # _ \<Rightarrow> replicate (length (case_other r)) NaN) \<rparr>"

definition absent_jaws :: "jaws_row list \<Rightarrow> jaws_row" where
  "absent_jaws jaws_df =
     \<lparr> IDN_REQUEST = NaN, CDE_JNL_STA = NaN,
       jaws_other = (case jaws_df of [] \<Rightarrow> [] | r # _ \<Rightarrow> replicate (length (jaws_other r)) NaN) \<rparr>"

text \<open>
  The order of the keys of an outer join: text in lexicographic order of its
  characters, a missing key last.
\<close>

fun key_order :: "cell \<Rightarrow> bool \<times> string" where
  "key_order NaN = (True, [])"
| "key_order (Str s) = (False, s)"

text \<open>
  \<^verbatim>\<open>pd.merge(case_df, jaws_df, left_on="Security ID", right_on="IDN_REQUEST", how="outer")\<close>:
  the keys of both frames in sorted order; under one key every pair of a left and
  a right row that carry it (two missing keys match), or the rows of the one side
  that has it, each with the other side absent.
\<close>

definition rows_of_key :: "case_rec list \<Rightarrow> jaws_row list \<Rightarrow> cell \<Rightarrow> joined_row list" where
  "rows_of_key case_df jaws_df k =
     (let ls = filter (\<lambda>l. Security_ID l = k) case_df;
          rs = filter (\<lambda>r. IDN_REQUEST r = k) jaws_df
      in if rs = [] then map (\<lambda>l. \<lparr>case_side = l, jaws_side = absent_jaws jaws_df\<rparr>) ls
         else if ls = [] then map (\<lambda>r. \<lparr>case_side = absent_case case_df, jaws_side = r\<rparr>) rs
         else concat (map (\<lambda>l. map (\<lambda>r. \<lparr>case_side = l, jaws_side = r\<rparr>) rs) ls))"

definition pd_merge_outer :: "case_rec list \<Rightarrow> jaws_row list \<Rightarrow> joined_row list" where
  "pd_merge_outer case_df jaws_df =
     concat (map (rows_of_key case_df jaws_df)
       (sort_key key_order (remdups (map Security_ID case_df @ map IDN_REQUEST jaws_df))))"

text \<open>
  \<^verbatim>\<open>Mapping.jaws_casestatus_map\<close> is not part of the source at hand: the parameter
  \<open>jaws_casestatus_map\<close>, a function of the JAWS status and the case status that
  returns the reconciled status.
\<close>

definition calreconstatuscase :: "(cell \<Rightarrow> cell \<Rightarrow> string) \<Rightarrow> cell \<Rightarrow> cell \<Rightarrow> string" where
  "calreconstatuscase jaws_casestatus_map case_status jaws_status =
     jaws_casestatus_map jaws_status case_status"

text \<open>
  \<^verbatim>\<open>np.vectorize(f)(xs, ys)\<close>: \<open>f\<close> on each pair of elements; on columns of size 0 it
  raises ValueError, for no output type is set.
\<close>

definition np_vectorize :: "('a \<Rightarrow> 'b \<Rightarrow> 'c) \<Rightarrow> 'a list \<Rightarrow> 'b list \<Rightarrow> error + 'c list" where
  "np_vectorize f xs ys = (if xs = [] \<or> ys = [] then Inl ValueError else Inr (map2 f xs ys))"

definition set_recon_status :: "joined_row \<Rightarrow> string \<Rightarrow> merged_row" where
  "set_recon_status j s = \<lparr>case_side = case_side j, jaws_side = jaws_side j, Recon_Status = s\<rparr>"

definition merge_data ::
  "(cell \<Rightarrow> cell \<Rightarrow> string) \<Rightarrow> case_rec list \<Rightarrow> jaws_row list \<Rightarrow> error + merged_row list" where
  "merge_data jaws_casestatus_map case_df jaws_df =
     (let merged = pd_merge_outer case_df jaws_df in
      bind_err (np_vectorize (calreconstatuscase jaws_casestatus_map)
                  (map (\<lambda>j. Status (case_side j)) merged)
                  (map (\<lambda>j. CDE_JNL_STA (jaws_side j)) merged)) (\<lambda>recon.
        Inr (map2 set_recon_status merged recon)))"

section \<open>Compare\<close>

text \<open>
  The element-wise \<^verbatim>\<open>!=\<close> of two columns: two texts differ when they are not the
  same string, and a missing value differs from everything, a missing value
  included.
\<close>

fun cell_ne :: "cell \<Rightarrow> cell \<Rightarrow> bool" where
  "cell_ne (Str a) (Str b) = (a \<noteq> b)"
| "cell_ne _ _ = True"

definition compare_data :: "merged_row list \<Rightarrow> merged_row list" where
  "compare_data merged_data =
     filter (\<lambda>r. cell_ne (Status (case_side r)) (CDE_JNL_STA (jaws_side r))) merged_data"

section \<open>The file system and the clock\<close>

text \<open>
  A path is resolved to its components; \<^verbatim>\<open>.\<close>, \<^verbatim>\<open>..\<close> and links are not
  interpreted, and a relative path is taken from the root. The file system holds
  the directories, and the spreadsheets written so far by \<^verbatim>\<open>to_excel\<close>; permissions
  are not modelled. \<open>stdout\<close> collects the frames printed.
\<close>

type_synonym path = "string list"

record xlsx =
  index_column :: bool
  sheet_rows :: "merged_row list"

record world =
  dirs :: "path set"
  files :: "path \<rightharpoonup> xlsx"
  stdout :: "merged_row list list"

definition components :: "string \<Rightarrow> path" where
  "components s = filter (\<lambda>c. c \<noteq> []) (str_split (CHR ''/'') s)"

definition os_path_join :: "string \<Rightarrow> string \<Rightarrow> string" where
  "os_path_join a b =
     (if b \<noteq> [] \<and> hd b = CHR ''/'' then b
      else if a = [] \<or> last a = CHR ''/'' then a @ b
      else a @ ''/'' @ b)"

definition is_dir :: "world \<Rightarrow> path \<Rightarrow> bool" where
  "is_dir w p = (p = [] \<or> p \<in> dirs w)"

definition is_file :: "world \<Rightarrow> path \<Rightarrow> bool" where
  "is_file w p = (files w p \<noteq> None)"

definition os_path_exists :: "world \<Rightarrow> string \<Rightarrow> bool" where
  "os_path_exists w s = (s \<noteq> [] \<and> (is_dir w (components s) \<or> is_file w (components s)))"

text \<open>The path itself and the directories above it, the root apart.\<close>

definition ancestors :: "path \<Rightarrow> path list" where
  "ancestors p = map (\<lambda>n. take n p) [1..<Suc (length p)]"

text \<open>
  \<^verbatim>\<open>os.makedirs(name)\<close> creates the directory and every missing directory above
  it. It raises when the path exists already, when the name is empty, and when a
  file stands in the way.
\<close>

definition os_makedirs :: "string \<Rightarrow> world \<Rightarrow> error + world" where
  "os_makedirs s w =
     (let p = components s in
      if s = [] then Inl FileNotFoundError
      else if is_dir w p \<or> is_file w p then Inl FileExistsError
      else if list_ex (is_file w) (ancestors p) then Inl NotADirectoryError
      else Inr (w\<lparr>dirs := dirs w \<union> set (ancestors p)\<rparr>))"

text \<open>
  \<^verbatim>\<open>df.to_excel(path, index=index)\<close> writes the rows, with the index as a first column
  when \<open>index\<close> is set; an existing file is replaced. The directory of the file
  has to exist.
\<close>

definition to_excel :: "merged_row list \<Rightarrow> string \<Rightarrow> bool \<Rightarrow> world \<Rightarrow> error + world" where
  "to_excel df s index w =
     (let p = components s in
      if p = [] \<or> is_dir w p then Inl IsADirectoryError
      else if \<not> is_dir w (butlast p) then
        (if list_ex (is_file w) (ancestors (butlast p)) then Inl NotADirectoryError
         else Inl FileNotFoundError)
      else Inr (w\<lparr>files := (files w)(p \<mapsto> \<lparr>index_column = index, sheet_rows = df\<rparr>)\<rparr>))"

text \<open>A reading of \<^verbatim>\<open>datetime.datetime.now()\<close>.\<close>

record datetime =
  year :: nat
  month :: nat
  day :: nat
  hour :: nat
  minute :: nat
  second :: nat

definition digit_char :: "nat \<Rightarrow> char" where
  "digit_char n = char_of (48 + n)"

text \<open>A decimal digit.\<close>

definition is_digit :: "char \<Rightarrow> bool" where
  "is_digit c = (let n = (of_char c :: nat) in 48 \<le> n \<and> n \<le> 57)"

fun dec :: "nat \<Rightarrow> string" where
  "dec n = (if n < 10 then [digit_char n] else dec (n div 10) @ [digit_char (n mod 10)])"

definition zfill :: "nat \<Rightarrow> string \<Rightarrow> string" where
  "zfill k s = replicate (k - length s) (CHR ''0'') @ s"

text \<open>
  \<^verbatim>\<open>strftime('%Y%m%d_%H%M%S')\<close> and \<^verbatim>\<open>strftime("%Y-%m-%d %H:%M:%S")\<close>. The year is
  written without padding, as the C library does.
\<close>

definition strftime_file :: "datetime \<Rightarrow> string" where
  "strftime_file t =
     dec (year t) @ zfill 2 (dec (month t)) @ zfill 2 (dec (day t)) @ ''_''
     @ zfill 2 (dec (hour t)) @ zfill 2 (dec (minute t)) @ zfill 2 (dec (second t))"


section \<open>The collaborators\<close>

text \<open>
  The classes \<^verbatim>\<open>AppGlobal\<close>, \<^verbatim>\<open>SqlClient\<close>, \<^verbatim>\<open>Query\<close> and \<^verbatim>\<open>Mapping\<close> of the package
  \<^verbatim>\<open>application\<close>, and the libraries' \<^verbatim>\<open>pd.read_excel\<close> and \<^verbatim>\<open>json.loads\<close>, are
  parameters of a run. A call that raises returns \<open>Inl\<close>. A client and a query are
  known by the string they were made from.
\<close>

record env =
  Config_get :: "string \<Rightarrow> string \<Rightarrow> error + string"
  SqlClient :: "string \<Rightarrow> error + string"
  Query :: "string \<Rightarrow> error + string"
  getQuery :: "string \<Rightarrow> error + string"
  executeProcedure :: "string \<Rightarrow> string \<Rightarrow> string list \<Rightarrow> error + jaws_row list"
  read_excel :: "string \<Rightarrow> string list \<Rightarrow> error + (casemgr_row list \<times> jaws_row list)"
  loads :: "string \<Rightarrow> json option"
  jaws_casestatus_map :: "cell \<Rightarrow> cell \<Rightarrow> string"

section \<open>The pipeline\<close>

text \<open>
  A run returns the error it raised, if any, and the world it leaves. \<open>attempt\<close>
  is one step that may raise: the run ends there with the world as it is.
\<close>

definition attempt :: "error + 'a \<Rightarrow> world \<Rightarrow> ('a \<Rightarrow> error option \<times> world) \<Rightarrow> error option \<times> world" where
  "attempt m w k = (case m of Inl e \<Rightarrow> (Some e, w) | Inr x \<Rightarrow> k x)"

text \<open>Lines 52 to 58 of \<^verbatim>\<open>analyze_data\<close>: process, merge, compare.\<close>

definition discrepancies_of :: "env \<Rightarrow> jaws_row list \<Rightarrow> casemgr_row list \<Rightarrow> error + merged_row list" where
  "discrepancies_of E jaws_data casemgr_data =
     bind_err (process_data (loads E) jaws_data casemgr_data) (\<lambda>dfs.
     bind_err (merge_data (jaws_casestatus_map E) (fst dfs) (snd dfs)) (\<lambda>merged_data.
       Inr (compare_data merged_data)))"

text \<open>Lines 61 to 71 of \<^verbatim>\<open>analyze_data\<close>: save and print the result.\<close>

definition output_name :: "datetime \<Rightarrow> string" where
  "output_name now = ''JAWSCasemgrRecon_'' @ strftime_file now @ ''.xlsx''"

definition emit :: "env \<Rightarrow> datetime \<Rightarrow> merged_row list \<Rightarrow> world \<Rightarrow> error option \<times> world" where
  "emit E now discrepancies w =
     attempt (Config_get E ''Storage'' ''TempDirectory'') w (\<lambda>temp_dir.
     attempt (if \<not> os_path_exists w temp_dir then os_makedirs temp_dir w else Inr w) w (\<lambda>w1.
     let output_file = os_path_join temp_dir (output_name now) in
     attempt (to_excel discrepancies output_file False w1) w1 (\<lambda>w2.
       (None, w2\<lparr>stdout := stdout w2 @ [discrepancies]\<rparr>))))"

definition analyze_data ::
  "env \<Rightarrow> datetime \<Rightarrow> jaws_row list \<Rightarrow> casemgr_row list \<Rightarrow> world \<Rightarrow> error option \<times> world" where
  "analyze_data E now jaws_data casemgr_data w =
     attempt (discrepancies_of E jaws_data casemgr_data) w (\<lambda>discrepancies.
       emit E now discrepancies w)"

definition execute_locally :: "env \<Rightarrow> datetime \<Rightarrow> world \<Rightarrow> error option \<times> world" where
  "execute_locally E now w =
     attempt (read_excel E ''data/jaws_bpm_recon_raw_data_case_mgr.xlsx'' [''Casemgr'', ''JAWS DB'']) w
       (\<lambda>df_sheet_multi. analyze_data E now (snd df_sheet_multi) (fst df_sheet_multi) w)"


section \<open>Example data\<close>

text \<open>Rows and frames on which the properties below are evaluated.\<close>

definition demo_case :: "string \<Rightarrow> cell \<Rightarrow> case_rec" where
  "demo_case sid st =
     \<lparr>CASE_DATA_entry = Some (JNum 1), Status = st, Symbol = Str ''SYM'',
      Security_ID = Str sid, case_other = []\<rparr>"

definition demo_jaws :: "string \<Rightarrow> cell \<Rightarrow> jaws_row" where
  "demo_jaws idn st = \<lparr>IDN_REQUEST = Str idn, CDE_JNL_STA = st, jaws_other = []\<rparr>"

definition demo_merged :: "cell \<Rightarrow> cell \<Rightarrow> merged_row" where
  "demo_merged a b =
     \<lparr>case_side = demo_case ''A'' a, jaws_side = demo_jaws ''A'' b, Recon_Status = ''?''\<rparr>"

definition demo_map :: "cell \<Rightarrow> cell \<Rightarrow> string" where
  "demo_map jaws_status case_status = (if jaws_status = case_status then ''Matched'' else ''Unmapped'')"

definition demo_case_df :: "case_rec list" where
  "demo_case_df = [demo_case ''A'' (Str ''OPEN''), demo_case ''B'' (Str ''OPEN'')]"

definition demo_jaws_df :: "jaws_row list" where
  "demo_jaws_df = [demo_jaws ''B'' (Str ''OPEN''), demo_jaws ''C'' (Str ''CLOSED'')]"

definition demo_merged_df :: "merged_row list" where
  "demo_merged_df =
     [\<lparr>case_side = demo_case ''A'' (Str ''OPEN''), jaws_side = absent_jaws demo_jaws_df,
       Recon_Status = ''Unmapped''\<rparr>,
      \<lparr>case_side = demo_case ''B'' (Str ''OPEN''), jaws_side = demo_jaws ''B'' (Str ''OPEN''),
       Recon_Status = ''Matched''\<rparr>,
      \<lparr>case_side = absent_case demo_case_df, jaws_side = demo_jaws ''C'' (Str ''CLOSED''),
       Recon_Status = ''Unmapped''\<rparr>]"

definition demo_loads :: "string \<Rightarrow> json option" where
  "demo_loads s =
     (if s = ''[1]'' then Some (JArr [JNum 1])
      else if s = ''[1, 2]'' then Some (JArr [JNum 1, JNum 2])
      else None)"

definition demo_casemgr :: "string \<Rightarrow> string \<Rightarrow> string \<Rightarrow> casemgr_row" where
  "demo_casemgr d k v = \<lparr>CASE_DATA = Str d, key = Str k, val = Str v, casemgr_other = []\<rparr>"

definition demo_casemgr_data :: "casemgr_row list" where
  "demo_casemgr_data =
     [demo_casemgr ''[1]'' ''A3SYM3B3 secid '' ''OPEN'',
      demo_casemgr ''[1, 2]'' ''X3IBM'' ''CLOSED'']"

definition demo_jaws_data :: "jaws_row list" where
  "demo_jaws_data = [demo_jaws '' SecId'' (Str ''OPEN''), demo_jaws ''other '' (Str ''CLOSED'')]"

definition demo_processed_case :: "case_rec list" where
  "demo_processed_case =
     [\<lparr>CASE_DATA_entry = Some (JNum 1), Status = Str ''OPEN'', Symbol = Str ''SYM'',
       Security_ID = Str ''SECID'', case_other = []\<rparr>,
      \<lparr>CASE_DATA_entry = Some (JNum 1), Status = Str ''CLOSED'', Symbol = Str ''IBM'',
       Security_ID = NaN, case_other = []\<rparr>,
      \<lparr>CASE_DATA_entry = Some (JNum 2), Status = Str ''CLOSED'', Symbol = Str ''IBM'',
       Security_ID = NaN, case_other = []\<rparr>]"

definition demo_processed_jaws :: "jaws_row list" where
  "demo_processed_jaws = [demo_jaws ''SECID'' (Str ''OPEN''), demo_jaws ''OTHER'' (Str ''CLOSED'')]"

definition demo_four :: "casemgr_row list" where
  "demo_four = [demo_casemgr ''[1]'' ''A3SYM3B3SECID'' ''OPEN'']"

definition demo_five :: "casemgr_row list" where
  "demo_five = [demo_casemgr ''[1]'' ''A3SYM3B3SEC123'' ''OPEN'']"

definition demo_two :: "casemgr_row list" where
  "demo_two = [demo_casemgr ''[1]'' ''SYM3SECID'' ''OPEN'']"

definition demo_config :: "string \<Rightarrow> string \<Rightarrow> error + string" where
  "demo_config section k =
     (if section = ''Storage'' \<and> k = ''TempDirectory'' then Inr ''/tmp/recon''
      else if section = ''Databases'' \<and> k = ''JAWSDBConnectionString'' then Inr ''jaws-db''
      else if section = ''Databases'' \<and> k = ''CaseMgrDBConnectionString'' then Inr ''casemgr-db''
      else Inl NotFound)"

definition demo_bad :: "casemgr_row list" where
  "demo_bad = [demo_casemgr ''[1]'' ''A3SYM3B3SECID'' ''OPEN'',
               demo_casemgr ''not json'' ''A3SYM3B3OTHER'' ''OPEN'']"

definition demo_env :: env where
  "demo_env =
     \<lparr> Config_get = demo_config,
       SqlClient = Inr,
       Query = Inr,
       getQuery = Inr,
       executeProcedure = (\<lambda>client query_text params. Inr [demo_jaws ''LIVE'' (Str ''OPEN'')]),
       read_excel = (\<lambda>path sheets. Inr (demo_casemgr_data, demo_jaws_data)),
       loads = demo_loads,
       jaws_casestatus_map = demo_map \<rparr>"

definition demo_now :: datetime where
  "demo_now = \<lparr>year = 2026, month = 11, day = 4, hour = 17, minute = 0, second = 5\<rparr>"

definition demo_world :: world where
  "demo_world = \<lparr>dirs = {}, files = Map.empty, stdout = []\<rparr>"

definition demo_updated_time :: datetime where
  "demo_updated_time = \<lparr>year = 2026, month = 11, day = 4, hour = 16, minute = 30, second = 5\<rparr>"

definition demo_world_dir :: world where
  "demo_world_dir = \<lparr>dirs = {[''tmp''], [''tmp'', ''recon'']}, files = Map.empty, stdout = []\<rparr>"

section \<open>Compare: the discrepancy set\<close>

lemma cell_ne_iff: "cell_ne a b \<longleftrightarrow> \<not> (\<exists>s. a = Str s \<and> b = Str s)"
  by (cases a; cases b) auto

text \<open>
  Claim C1. The discrepancy set is the merged frame without the rows whose
  \<^verbatim>\<open>Status\<close> and \<^verbatim>\<open>CDE_JNL_STA\<close> are both text and the same string: a row of two equal
  strings is left out, a row of two different strings is kept, and so is a row
  with one side present and the other missing. The rows kept stay in their order.
\<close>

theorem compare_data_exact:
  "compare_data merged_data =
     filter (\<lambda>r. \<not> (\<exists>s. Status (case_side r) = Str s \<and> CDE_JNL_STA (jaws_side r) = Str s))
       merged_data"
  unfolding compare_data_def cell_ne_iff ..

theorem compare_data_exact_witness:
  "compare_data
     [demo_merged (Str ''OPEN'') (Str ''OPEN''), demo_merged (Str ''OPEN'') (Str ''CLOSED''),
      demo_merged (Str ''OPEN'') NaN, demo_merged NaN (Str ''OPEN'')]
   = [demo_merged (Str ''OPEN'') (Str ''CLOSED''), demo_merged (Str ''OPEN'') NaN,
      demo_merged NaN (Str ''OPEN'')]"
  using compare_data_exact
    [of "[demo_merged (Str ''OPEN'') (Str ''OPEN''), demo_merged (Str ''OPEN'') (Str ''CLOSED''),
          demo_merged (Str ''OPEN'') NaN, demo_merged NaN (Str ''OPEN'')]"]
  by (simp add: demo_merged_def demo_case_def demo_jaws_def)

text \<open>
  Claim C10. A merged row in which \<^verbatim>\<open>Status\<close> and \<^verbatim>\<open>CDE_JNL_STA\<close> are both missing is
  in the discrepancy set: the comparison takes a missing value to differ from
  everything, another missing value included.
\<close>

theorem compare_data_both_missing:
  "r \<in> set merged_data \<Longrightarrow> Status (case_side r) = NaN \<Longrightarrow> CDE_JNL_STA (jaws_side r) = NaN
   \<Longrightarrow> r \<in> set (compare_data merged_data)"
  by (simp add: compare_data_def)

theorem compare_data_both_missing_witness:
  "demo_merged NaN NaN \<in> set [demo_merged (Str ''OPEN'') (Str ''OPEN''), demo_merged NaN NaN]
   \<and> Status (case_side (demo_merged NaN NaN)) = NaN
   \<and> CDE_JNL_STA (jaws_side (demo_merged NaN NaN)) = NaN
   \<and> demo_merged NaN NaN
       \<in> set (compare_data [demo_merged (Str ''OPEN'') (Str ''OPEN''), demo_merged NaN NaN])"
  using compare_data_both_missing
    [of "demo_merged NaN NaN" "[demo_merged (Str ''OPEN'') (Str ''OPEN''), demo_merged NaN NaN]"]
  by (simp add: demo_merged_def demo_case_def demo_jaws_def)

section \<open>Merge: the reconciled status and the outer join\<close>

lemma merge_data_Inr:
  "merge_data M c j = Inr merged \<longleftrightarrow>
     pd_merge_outer c j \<noteq> [] \<and>
     merged = map (\<lambda>r. set_recon_status r (M (CDE_JNL_STA (jaws_side r)) (Status (case_side r)))) (pd_merge_outer c j)"
proof -
  have z: "map2 set_recon_status xs (map2 f (map g xs) (map h xs)) = map (\<lambda>r. set_recon_status r (f (g r) (h r))) xs" for xs :: "joined_row list" and f :: "cell \<Rightarrow> cell \<Rightarrow> string" and g h
    by (induction xs) auto
  show ?thesis
    by (auto simp: merge_data_def Let_def np_vectorize_def bind_err_def z calreconstatuscase_def)
qed


lemma demo_merge: "merge_data demo_map demo_case_df demo_jaws_df = Inr demo_merged_df"
  by code_simp

text \<open>
  Claim C5. When \<^verbatim>\<open>merge_data\<close> returns, its rows are the rows of the outer join,
  one for one and in their order, and in every row \<^verbatim>\<open>Recon Status\<close> is
  \<^verbatim>\<open>calreconstatuscase\<close> of that row's \<^verbatim>\<open>Status\<close> and \<^verbatim>\<open>CDE_JNL_STA\<close>, which is the
  mapping applied to the JAWS status and the case status of the row. The mapping
  is a function of the two values: nothing else of the frame enters.
\<close>

theorem merge_data_recon_status:
  assumes "merge_data M case_df jaws_df = Inr merged"
  shows "map joined_row.truncate merged = pd_merge_outer case_df jaws_df \<and>
         (\<forall>r\<in>set merged. Recon_Status r = calreconstatuscase M (Status (case_side r)) (CDE_JNL_STA (jaws_side r))
                          \<and> Recon_Status r = M (CDE_JNL_STA (jaws_side r)) (Status (case_side r)))"
  using assms unfolding merge_data_Inr
  by (auto simp: set_recon_status_def calreconstatuscase_def joined_row.truncate_def o_def map_idI)

theorem merge_data_recon_status_witness:
  "merge_data demo_map demo_case_df demo_jaws_df = Inr demo_merged_df
   \<and> map joined_row.truncate demo_merged_df = pd_merge_outer demo_case_df demo_jaws_df
   \<and> list_all (\<lambda>r. Recon_Status r =
                      calreconstatuscase demo_map (Status (case_side r)) (CDE_JNL_STA (jaws_side r))
                    \<and> Recon_Status r = demo_map (CDE_JNL_STA (jaws_side r)) (Status (case_side r)))
         demo_merged_df"
  using merge_data_recon_status [OF demo_merge] demo_merge
  by (simp add: list_all_iff calreconstatuscase_def)











section \<open>Process: normalising the join keys\<close>

lemma of_char_upper: "is_space (upper_char c) = is_space c"
  unfolding is_space_def upper_char_def Let_def
  by (auto simp: of_char_of)

lemma upper_char_idem: "upper_char (upper_char c) = upper_char c"
  unfolding upper_char_def Let_def
  by (auto simp: of_char_of)

lemma str_upper_idem: "str_upper (str_upper s) = str_upper s"
  by (simp add: str_upper_def upper_char_idem)

lemma dropWhile_space_upper:
  "dropWhile is_space (map upper_char s) = map upper_char (dropWhile is_space s)"
  by (induction s) (simp_all add: of_char_upper)

lemma str_strip_upper_commute: "str_strip (str_upper s) = str_upper (str_strip s)"
  by (simp add: str_strip_def str_upper_def dropWhile_space_upper rev_map)

lemma dropWhile_keeps_last:
  "xs \<noteq> [] \<Longrightarrow> \<not> P (last xs) \<Longrightarrow> dropWhile P xs \<noteq> [] \<and> last (dropWhile P xs) = last xs"
  by (induction xs) (auto split: if_splits)

lemma dropWhile_hd_id: "ys = [] \<or> \<not> P (hd ys) \<Longrightarrow> dropWhile P ys = ys"
  by (cases ys) auto

lemma lstrip_of_strip: "dropWhile is_space (str_strip s) = str_strip s"
proof -
  let ?t = "dropWhile is_space s"
  let ?u = "rev (dropWhile is_space (rev ?t))"
  have t: "?t = [] \<or> \<not> is_space (hd ?t)"
    using hd_dropWhile[of is_space s] by blast
  have "?u = [] \<or> \<not> is_space (hd ?u)"
  proof (cases "?t = []")
    case True
    show ?thesis by (simp only: True rev.simps dropWhile.simps simp_thms)
  next
    case False
    with t have h: "\<not> is_space (hd ?t)" by blast
    have "rev ?t \<noteq> []" "last (rev ?t) = hd ?t" using False by (simp_all add: last_rev)
    with h dropWhile_keeps_last[of "rev ?t" is_space]
    have "dropWhile is_space (rev ?t) \<noteq> []" "last (dropWhile is_space (rev ?t)) = hd ?t"
      by simp_all
    then have "hd ?u = hd ?t" by (simp add: hd_rev)
    with h show ?thesis by simp
  qed
  then show ?thesis unfolding str_strip_def by (rule dropWhile_hd_id)
qed

lemma str_strip_idem: "str_strip (str_strip s) = str_strip s"
proof -
  have "str_strip (str_strip s) = rev (dropWhile is_space (rev (str_strip s)))"
    unfolding str_strip_def[of "str_strip s"] lstrip_of_strip ..
  also have "\<dots> = rev (dropWhile is_space (dropWhile is_space (rev (dropWhile is_space s))))"
    by (simp add: str_strip_def)
  also have "\<dots> = str_strip s"
    by (simp add: str_strip_def)
  finally show ?thesis .
qed

lemma strip_upper_Str: "strip_upper (Str s) = Str (str_upper (str_strip s))"
  by (simp add: strip_upper_def)

lemma strip_upper_idem: "strip_upper (strip_upper c) = strip_upper c"
  by (cases c) (simp_all add: strip_upper_def str_strip_upper_commute str_upper_idem str_strip_idem)

lemma bind_err_Inr: "bind_err m f = Inr y \<longleftrightarrow> (\<exists>x. m = Inr x \<and> f x = Inr y)"
  by (cases m) (simp_all add: bind_err_def)

lemma bind_err_simps [simp]: "bind_err (Inl e) f = Inl e" "bind_err (Inr x) f = f x"
  by (simp_all add: bind_err_def)

lemma str_accessor_Inr: "str_accessor col = Inr col' \<Longrightarrow> col' = col"
  by (auto simp: str_accessor_def split: if_splits)

lemma map2_map_same: "map2 f xs (map g xs) = map (\<lambda>x. f x (g x)) xs"
  by (induction xs) auto

lemma process_data_Inr:
  "process_data ld jaws casemgr = Inr (case_df, jaws_df) \<longleftrightarrow>
     (\<exists>loaded. apply_loads ld casemgr = Inr loaded \<and>
        str_accessor (map (\<lambda>er. key (snd er)) (explode loaded)) = Inr (map (\<lambda>er. key (snd er)) (explode loaded)) \<and>
        expand_width (map (\<lambda>er. key (snd er)) (explode loaded)) = 4 \<and>
        case_df = map (\<lambda>er. make_case_rec er (expand_row 4 (key (snd er)))) (explode loaded) \<and>
        normalize_jaws jaws = Inr jaws_df)"
  (is "?L = ?R")
proof
  assume ?L
  then obtain loaded fr cols where
    1: "apply_loads ld casemgr = Inr loaded"
    and 2: "str_split_expand (map (\<lambda>er. key (snd er)) (explode loaded)) = Inr fr"
    and 3: "assign_four fr = Inr cols"
    and 4: "normalize_jaws jaws = Inr jaws_df"
    and 5: "case_df = map2 make_case_rec (explode loaded) cols"
    unfolding process_data_def Let_def bind_err_Inr by auto
  let ?keys = "map (\<lambda>er. key (snd er)) (explode loaded)"
  from 2 obtain col' where a: "str_accessor ?keys = Inr col'"
    and fr: "fr = (expand_width col', map (expand_row (expand_width col')) col')"
    unfolding str_split_expand_def Let_def bind_err_Inr by auto
  from a have c: "col' = ?keys" by (rule str_accessor_Inr)
  from 3 fr have w: "expand_width col' = 4" and cols: "cols = map (expand_row 4) col'"
    by (auto simp: assign_four_def split: if_splits)
  have "case_df = map (\<lambda>er. make_case_rec er (expand_row 4 (key (snd er)))) (explode loaded)"
    unfolding 5 cols c map_map o_def by (rule map2_map_same)
  with 1 a c w 4 show ?R by auto
next
  assume ?R
  then obtain loaded where
    1: "apply_loads ld casemgr = Inr loaded"
    and a: "str_accessor (map (\<lambda>er. key (snd er)) (explode loaded)) = Inr (map (\<lambda>er. key (snd er)) (explode loaded))"
    and w: "expand_width (map (\<lambda>er. key (snd er)) (explode loaded)) = 4"
    and 5: "case_df = map (\<lambda>er. make_case_rec er (expand_row 4 (key (snd er)))) (explode loaded)"
    and 4: "normalize_jaws jaws = Inr jaws_df" by blast
  have "map2 make_case_rec (explode loaded) (map (expand_row 4) (map (\<lambda>er. key (snd er)) (explode loaded))) = case_df"
    unfolding 5 map_map o_def by (rule map2_map_same)
  then show ?L
    unfolding process_data_def Let_def str_split_expand_def
    by (simp add: 1 a w 4 assign_four_def)
qed

lemma normalize_jaws_Inr:
  "normalize_jaws jaws = Inr jaws_df \<Longrightarrow>
     jaws_df = map (\<lambda>r. r\<lparr>IDN_REQUEST := strip_upper (IDN_REQUEST r)\<rparr>) jaws"
  unfolding normalize_jaws_def bind_err_Inr by auto

lemma Security_ID_make_case_rec: "Security_ID (make_case_rec er cols) = strip_upper (cols ! 3)"
  by (simp add: make_case_rec_def)

text \<open>
  Claim C7. When \<^verbatim>\<open>process_data\<close> returns, every \<^verbatim>\<open>Security ID\<close> of the case frame
  and every \<^verbatim>\<open>IDN_REQUEST\<close> of the JAWS frame is the stripped and upper-cased form
  of the raw value, so that the join compares keys regardless of case and of
  white space around them. Stripping and upper-casing twice gives the same as
  once, on every cell and on every string.
\<close>

theorem process_data_normalizes_keys:
  assumes "process_data ld jaws casemgr = Inr (case_df, jaws_df)"
  shows "(\<forall>r\<in>set case_df. \<exists>raw. Security_ID r = strip_upper raw) \<and>
         jaws_df = map (\<lambda>r. r\<lparr>IDN_REQUEST := strip_upper (IDN_REQUEST r)\<rparr>) jaws \<and>
         (\<forall>r\<in>set case_df. strip_upper (Security_ID r) = Security_ID r) \<and>
         (\<forall>r\<in>set jaws_df. strip_upper (IDN_REQUEST r) = IDN_REQUEST r) \<and>
         (\<forall>c. strip_upper (strip_upper c) = strip_upper c) \<and>
         (\<forall>s. str_upper (str_strip (str_upper (str_strip s))) = str_upper (str_strip s))"
proof -
  from assms obtain loaded where
    c: "case_df = map (\<lambda>er. make_case_rec er (expand_row 4 (key (snd er)))) (explode loaded)"
    and j: "normalize_jaws jaws = Inr jaws_df"
    unfolding process_data_Inr by blast
  have 1: "\<forall>r\<in>set case_df. \<exists>raw. Security_ID r = strip_upper raw"
    unfolding c by (auto simp: Security_ID_make_case_rec)
  have 2: "jaws_df = map (\<lambda>r. r\<lparr>IDN_REQUEST := strip_upper (IDN_REQUEST r)\<rparr>) jaws"
    using j by (rule normalize_jaws_Inr)
  have 3: "\<forall>r\<in>set case_df. strip_upper (Security_ID r) = Security_ID r"
    using 1 by (auto simp: strip_upper_idem)
  have 4: "\<forall>r\<in>set jaws_df. strip_upper (IDN_REQUEST r) = IDN_REQUEST r"
    unfolding 2 by (auto simp: strip_upper_idem)
  have 5: "\<forall>s. str_upper (str_strip (str_upper (str_strip s))) = str_upper (str_strip s)"
    by (simp add: str_strip_upper_commute str_upper_idem str_strip_idem)
  from 1 2 3 4 5 show ?thesis by (simp add: strip_upper_idem)
qed

lemma demo_norm: "strip_upper (Str '' sec123 '') = Str ''SEC123''"
  by code_simp

lemma demo_process:
  "process_data demo_loads demo_jaws_data demo_casemgr_data = Inr (demo_processed_case, demo_processed_jaws)"
  by code_simp

theorem process_data_normalizes_keys_witness:
  "process_data demo_loads demo_jaws_data demo_casemgr_data = Inr (demo_processed_case, demo_processed_jaws)
   \<and> list_all (\<lambda>r. strip_upper (Security_ID r) = Security_ID r) demo_processed_case
   \<and> list_all (\<lambda>r. strip_upper (IDN_REQUEST r) = IDN_REQUEST r) demo_processed_jaws
   \<and> demo_processed_jaws = map (\<lambda>r. r\<lparr>IDN_REQUEST := strip_upper (IDN_REQUEST r)\<rparr>) demo_jaws_data
   \<and> strip_upper (Str '' sec123 '') = Str ''SEC123''
   \<and> strip_upper (strip_upper (Str '' sec123 '')) = strip_upper (Str '' sec123 '')
   \<and> str_upper (str_strip (str_upper (str_strip '' sec123 ''))) = str_upper (str_strip '' sec123 '')"
proof -
  note t = process_data_normalizes_keys [OF demo_process]
  from t have 1: "list_all (\<lambda>r. strip_upper (Security_ID r) = Security_ID r) demo_processed_case"
    and 2: "list_all (\<lambda>r. strip_upper (IDN_REQUEST r) = IDN_REQUEST r) demo_processed_jaws"
    and 3: "demo_processed_jaws =
              map (\<lambda>r. r\<lparr>IDN_REQUEST := strip_upper (IDN_REQUEST r)\<rparr>) demo_jaws_data"
    by (simp_all add: list_all_iff)
  from t have 4: "strip_upper (strip_upper (Str '' sec123 '')) = strip_upper (Str '' sec123 '')"
    and 5: "str_upper (str_strip (str_upper (str_strip '' sec123 ''))) = str_upper (str_strip '' sec123 '')"
    by blast+
  from demo_process demo_norm 1 2 3 4 5 show ?thesis by blast
qed

section \<open>Process: splitting the key\<close>

lemma str_split_not_Nil: "str_split sep s \<noteq> []"
  by (induction s) (auto split: list.splits)

lemma length_str_split: "length (str_split sep s) = Suc (count_list s sep)"
proof (induction s)
  case Nil
  then show ?case by simp
next
  case (Cons x xs)
  then show ?case
    using str_split_not_Nil[of sep xs] by (cases "str_split sep xs") auto
qed

lemma n_segments_le_width: "k \<in> set keys \<Longrightarrow> n_segments k \<le> expand_width keys"
  unfolding expand_width_def by (induction keys) auto

lemma width_bound: "\<forall>k\<in>set keys. n_segments k \<le> n \<Longrightarrow> expand_width keys \<le> n"
  unfolding expand_width_def by (induction keys) auto

lemma expand_row_four:
  "str_split (CHR ''3'') k = [a, b, c, d] \<Longrightarrow> expand_row 4 (Str k) = [Str a, Str b, Str c, Str d]"
  by simp

lemma expand_row_short:
  assumes "n_segments k \<le> i" "i < w"
  shows "expand_row w k ! i = NaN"
proof (cases k)
  case NaN
  with assms show ?thesis by simp
next
  case (Str s)
  with assms show ?thesis by (simp add: Let_def nth_append)
qed

lemma split_expand_assign:
  "expand_width keys \<noteq> 4 \<Longrightarrow>
     bind_err (str_split_expand keys) (\<lambda>fr. bind_err (assign_four fr) f) =
       Inl (if keys \<noteq> [] \<and> list_all (\<lambda>c. c = NaN) keys then AttributeError else ValueError)"
  by (auto simp: str_split_expand_def str_accessor_def assign_four_def Let_def expand_width_def)

lemma process_data_raises:
  assumes "apply_loads ld casemgr = Inr loaded"
    and "expand_width (map (\<lambda>er. key (snd er)) (explode loaded)) \<noteq> 4"
  shows "process_data ld jaws casemgr =
           Inl (if map (\<lambda>er. key (snd er)) (explode loaded) \<noteq> [] \<and>
                   list_all (\<lambda>c. c = NaN) (map (\<lambda>er. key (snd er)) (explode loaded))
                then AttributeError else ValueError)"
  unfolding process_data_def Let_def assms(1) bind_err_simps
  by (rule split_expand_assign[OF assms(2)])

lemma demo_loads_four: "apply_loads demo_loads demo_four =
    Inr [(JArr [JNum 1], demo_casemgr ''[1]'' ''A3SYM3B3SECID'' ''OPEN'')]"
  by code_simp

lemma demo_process_four:
  "process_data demo_loads [] demo_four =
     Inr ([\<lparr>CASE_DATA_entry = Some (JNum 1), Status = Str ''OPEN'', Symbol = Str ''SYM'',
            Security_ID = Str ''SECID'', case_other = []\<rparr>], [])"
  by code_simp

lemma demo_split_four: "str_split (CHR ''3'') ''A3SYM3B3SECID'' = [''A'', ''SYM'', ''B'', ''SECID'']"
  by simp

text \<open>
  Claim C3, as the code has it. Splitting a key on \<^verbatim>\<open>3\<close> gives one segment more than
  the key has characters \<^verbatim>\<open>3\<close>. When \<^verbatim>\<open>process_data\<close> returns, a row whose key splits
  into exactly four segments has the second as \<^verbatim>\<open>Symbol\<close> and the fourth, stripped
  and upper-cased, as \<^verbatim>\<open>Security ID\<close>; the first and the third are dropped, and
  \<^verbatim>\<open>Status\<close> is the row's \<^verbatim>\<open>value\<close>.
\<close>

theorem process_data_key_split:
  assumes "process_data ld jaws casemgr = Inr (case_df, jaws_df)"
    and "apply_loads ld casemgr = Inr loaded"
  shows "length case_df = length (explode loaded) \<and>
         (\<forall>i<length case_df. \<forall>k a b c d.
            key (snd (explode loaded ! i)) = Str k \<and> str_split (CHR ''3'') k = [a, b, c, d] \<longrightarrow>
              Symbol (case_df ! i) = Str b \<and>
              Security_ID (case_df ! i) = Str (str_upper (str_strip d)) \<and>
              Status (case_df ! i) = val (snd (explode loaded ! i))) \<and>
         (\<forall>k. length (str_split (CHR ''3'') k) = Suc (count_list k (CHR ''3'')))"
proof -
  from assms have c: "case_df = map (\<lambda>er. make_case_rec er (expand_row 4 (key (snd er)))) (explode loaded)"
    unfolding process_data_Inr by auto
  have 1: "length case_df = length (explode loaded)" unfolding c by simp
  have 2: "Symbol (case_df ! i) = Str b \<and>
           Security_ID (case_df ! i) = Str (str_upper (str_strip d)) \<and>
           Status (case_df ! i) = val (snd (explode loaded ! i))"
    if "i < length case_df" "key (snd (explode loaded ! i)) = Str k"
       "str_split (CHR ''3'') k = [a, b, c, d]" for i k a b c d
  proof -
    from that(1) 1 have "case_df ! i =
        make_case_rec (explode loaded ! i) (expand_row 4 (key (snd (explode loaded ! i))))"
      unfolding c by simp
    also have "\<dots> = make_case_rec (explode loaded ! i) [Str a, Str b, Str c, Str d]"
      using that(2,3) by simp
    finally show ?thesis by (simp add: make_case_rec_def strip_upper_Str)
  qed
  from 1 2 show ?thesis by (simp add: length_str_split)
qed

theorem process_data_key_split_witness:
  "process_data demo_loads [] demo_four =
     Inr ([\<lparr>CASE_DATA_entry = Some (JNum 1), Status = Str ''OPEN'', Symbol = Str ''SYM'',
            Security_ID = Str ''SECID'', case_other = []\<rparr>], [])
   \<and> apply_loads demo_loads demo_four =
       Inr [(JArr [JNum 1], demo_casemgr ''[1]'' ''A3SYM3B3SECID'' ''OPEN'')]
   \<and> str_split (CHR ''3'') ''A3SYM3B3SECID'' = [''A'', ''SYM'', ''B'', ''SECID'']
   \<and> length (str_split (CHR ''3'') ''A3SYM3B3SEC123'') = Suc (count_list ''A3SYM3B3SEC123'' (CHR ''3''))"
  using process_data_key_split [OF demo_process_four demo_loads_four]
    demo_process_four demo_loads_four demo_split_four
  by blast

theorem key_split_sec123_counterexample:
  "str_split (CHR ''3'') ''A3SYM3B3SEC123'' = [''A'', ''SYM'', ''B'', ''SEC12'', '''']
   \<and> process_data demo_loads [] demo_five = Inl ValueError"
  by code_simp

text \<open>
  Claim C4, as the code has it. The expanded frame is as wide as the longest key
  of the table. A key of more than four segments makes the assignment to the four
  columns raise ValueError, and so does a table in which no key reaches four
  segments (AttributeError when the column holds no text at all). Only in a table
  whose longest key has four segments does \<^verbatim>\<open>process_data\<close> return, and there a key
  of fewer than four segments leaves \<^verbatim>\<open>Security ID\<close> missing, and \<^verbatim>\<open>Symbol\<close> too when
  it has a single segment.
\<close>

theorem process_data_segment_count:
  assumes "apply_loads ld casemgr = Inr loaded"
    and "keys = map (\<lambda>er. key (snd er)) (explode loaded)"
  shows "((\<exists>k\<in>set keys. 4 < n_segments k) \<longrightarrow> process_data ld jaws casemgr = Inl ValueError) \<and>
         ((\<forall>k\<in>set keys. n_segments k < 4) \<longrightarrow>
            process_data ld jaws casemgr = Inl ValueError \<or>
            process_data ld jaws casemgr = Inl AttributeError) \<and>
         (\<forall>case_df jaws_df. process_data ld jaws casemgr = Inr (case_df, jaws_df) \<longrightarrow>
            length case_df = length keys \<and>
            (\<forall>i<length keys. n_segments (keys ! i) < 4 \<longrightarrow> Security_ID (case_df ! i) = NaN) \<and>
            (\<forall>i<length keys. n_segments (keys ! i) < 2 \<longrightarrow> Symbol (case_df ! i) = NaN))"
proof (intro conjI impI allI)
  assume "\<exists>k\<in>set keys. 4 < n_segments k"
  then obtain k where k: "k \<in> set keys" "4 < n_segments k" by blast
  then have w: "expand_width keys \<noteq> 4" using n_segments_le_width[of k keys] by simp
  from k have "k \<noteq> NaN" by auto
  with k(1) have "\<not> list_all (\<lambda>c. c = NaN) keys" by (auto simp: list_all_iff)
  with process_data_raises[OF assms(1), of jaws] w show "process_data ld jaws casemgr = Inl ValueError"
    unfolding assms(2) by simp
next
  assume "\<forall>k\<in>set keys. n_segments k < 4"
  then have "\<forall>k\<in>set keys. n_segments k \<le> 3" by auto
  then have "expand_width keys \<le> 3" by (rule width_bound)
  then have "expand_width keys \<noteq> 4" by simp
  with process_data_raises[OF assms(1), of jaws]
  show "process_data ld jaws casemgr = Inl ValueError \<or> process_data ld jaws casemgr = Inl AttributeError"
    unfolding assms(2) by presburger
next
  fix case_df jaws_df
  assume p: "process_data ld jaws casemgr = Inr (case_df, jaws_df)"
  with assms(1) have c: "case_df = map (\<lambda>er. make_case_rec er (expand_row 4 (key (snd er)))) (explode loaded)"
    unfolding process_data_Inr by auto
  show "length case_df = length keys" unfolding c assms(2) by simp
  { fix i assume i: "i < length keys" and n: "n_segments (keys ! i) < 4"
    from i have "case_df ! i = make_case_rec (explode loaded ! i) (expand_row 4 (keys ! i))"
      unfolding c assms(2) by simp
    then show "Security_ID (case_df ! i) = NaN"
      using expand_row_short[of "keys ! i" 3 4] n by (simp add: make_case_rec_def strip_upper_def) }
  { fix i assume i: "i < length keys" and n: "n_segments (keys ! i) < 2"
    from i have "case_df ! i = make_case_rec (explode loaded ! i) (expand_row 4 (keys ! i))"
      unfolding c assms(2) by simp
    then show "Symbol (case_df ! i) = NaN"
      using expand_row_short[of "keys ! i" 1 4] n by (simp add: make_case_rec_def) }
qed

lemma demo_loads_five: "apply_loads demo_loads demo_five =
    Inr [(JArr [JNum 1], demo_casemgr ''[1]'' ''A3SYM3B3SEC123'' ''OPEN'')]"
  by code_simp

lemma demo_loads_two: "apply_loads demo_loads demo_two =
    Inr [(JArr [JNum 1], demo_casemgr ''[1]'' ''SYM3SECID'' ''OPEN'')]"
  by code_simp

lemma demo_loads_data: "apply_loads demo_loads demo_casemgr_data =
    Inr [(JArr [JNum 1], demo_casemgr ''[1]'' ''A3SYM3B3 secid '' ''OPEN''),
         (JArr [JNum 1, JNum 2], demo_casemgr ''[1, 2]'' ''X3IBM'' ''CLOSED'')]"
  by code_simp

theorem process_data_segment_count_witness:
  "process_data demo_loads [] demo_five = Inl ValueError
   \<and> (process_data demo_loads [] demo_two = Inl ValueError
        \<or> process_data demo_loads [] demo_two = Inl AttributeError)
   \<and> process_data demo_loads demo_jaws_data demo_casemgr_data =
        Inr (demo_processed_case, demo_processed_jaws)
   \<and> length demo_processed_case = 3
   \<and> Security_ID (demo_processed_case ! 1) = NaN"
proof -
  have k5: "\<exists>k\<in>set (map (\<lambda>er. key (snd er))
              (explode [(JArr [JNum 1], demo_casemgr ''[1]'' ''A3SYM3B3SEC123'' ''OPEN'')])).
              4 < n_segments k"
    by (simp add: explode_def demo_casemgr_def)
  have k2: "\<forall>k\<in>set (map (\<lambda>er. key (snd er))
              (explode [(JArr [JNum 1], demo_casemgr ''[1]'' ''SYM3SECID'' ''OPEN'')])).
              n_segments k < 4"
    by (simp add: explode_def demo_casemgr_def)
  have k3: "map (\<lambda>er. key (snd er))
              (explode [(JArr [JNum 1], demo_casemgr ''[1]'' ''A3SYM3B3 secid '' ''OPEN''),
                 (JArr [JNum 1, JNum 2], demo_casemgr ''[1, 2]'' ''X3IBM'' ''CLOSED'')])
            = [Str ''A3SYM3B3 secid '', Str ''X3IBM'', Str ''X3IBM'']"
    by (simp add: explode_def demo_casemgr_def)
  from process_data_segment_count [OF demo_loads_five refl, of "[]"] k5
  have 1: "process_data demo_loads [] demo_five = Inl ValueError" by blast
  from process_data_segment_count [OF demo_loads_two refl, of "[]"] k2
  have 2: "process_data demo_loads [] demo_two = Inl ValueError
        \<or> process_data demo_loads [] demo_two = Inl AttributeError" by blast
  from process_data_segment_count [OF demo_loads_data k3 [symmetric], of demo_jaws_data] demo_process
  have 3: "length demo_processed_case = length [Str ''A3SYM3B3 secid '', Str ''X3IBM'', Str ''X3IBM'']"
    and 4: "\<forall>i<length [Str ''A3SYM3B3 secid '', Str ''X3IBM'', Str ''X3IBM''].
              n_segments ([Str ''A3SYM3B3 secid '', Str ''X3IBM'', Str ''X3IBM''] ! i) < 4 \<longrightarrow>
              Security_ID (demo_processed_case ! i) = NaN"
    by blast+
  from 4 have 5: "Security_ID (demo_processed_case ! 1) = NaN" by simp
  from 1 2 demo_process 3 5 show ?thesis by simp
qed

theorem short_key_raises_counterexample:
  "n_segments (Str ''SYM3SECID'') = 2
   \<and> process_data demo_loads [] demo_two = Inl ValueError"
  by code_simp

section \<open>The run: failures leave no report\<close>

lemma attempt_simps [simp]:
  "attempt (Inl e) w k = (Some e, w)" "attempt (Inr x) w k = k x"
  by (simp_all add: attempt_def)

lemma json_loads_Inl: "json_loads ld c = Inl e \<Longrightarrow> e = JSONDecodeError \<or> e = TypeError"
  by (auto simp: json_loads_def split: cell.splits option.splits)

lemma json_loads_text_Inl: "c \<noteq> NaN \<Longrightarrow> json_loads ld c = Inl e \<Longrightarrow> e = JSONDecodeError"
  by (auto simp: json_loads_def split: cell.splits option.splits)

lemma apply_loads_Inl:
  "apply_loads ld rows = Inl e \<Longrightarrow> \<exists>r\<in>set rows. json_loads ld (CASE_DATA r) = Inl e"
proof (induction rows)
  case Nil
  then show ?case by simp
next
  case (Cons r rs)
  then show ?case
    by (cases "json_loads ld (CASE_DATA r)"; cases "apply_loads ld rs") auto
qed

lemma apply_loads_raises:
  "r \<in> set rows \<Longrightarrow> json_loads ld (CASE_DATA r) = Inl e0 \<Longrightarrow> \<exists>e. apply_loads ld rows = Inl e"
proof (induction rows)
  case Nil
  then show ?case by simp
next
  case (Cons x xs)
  then show ?case
    by (cases "json_loads ld (CASE_DATA x)"; cases "apply_loads ld xs") auto
qed

lemma discrepancies_of_loads_Inl:
  "apply_loads (loads E) casemgr = Inl e \<Longrightarrow> discrepancies_of E jaws casemgr = Inl e"
  by (simp add: discrepancies_of_def process_data_def)

lemma analyze_data_Inl:
  "discrepancies_of E jaws casemgr = Inl e \<Longrightarrow> analyze_data E now jaws casemgr w = (Some e, w)"
  by (simp add: analyze_data_def)

lemma os_makedirs_files: "os_makedirs s w = Inr w1 \<Longrightarrow> files w1 = files w \<and> stdout w1 = stdout w"
  by (auto simp: os_makedirs_def Let_def split: if_splits)

lemma emit_error_files:
  assumes "emit E now d w = (Some e, w')"
  shows "files w' = files w \<and> stdout w' = stdout w"
proof (cases "Config_get E ''Storage'' ''TempDirectory''")
  case (Inl a)
  with assms show ?thesis by (simp add: emit_def)
next
  case (Inr temp_dir)
  show ?thesis
  proof (cases "if \<not> os_path_exists w temp_dir then os_makedirs temp_dir w else Inr w")
    case (Inl a)
    with assms Inr show ?thesis by (simp add: emit_def)
  next
    case w1: (Inr w1)
    then have f: "files w1 = files w \<and> stdout w1 = stdout w"
      using os_makedirs_files[of temp_dir w w1] by (auto split: if_splits)
    show ?thesis
    proof (cases "to_excel d (os_path_join temp_dir (output_name now)) False w1")
      case (Inl a)
      with assms Inr w1 f show ?thesis by (simp add: emit_def Let_def)
    next
      case (Inr w2)
      with assms \<open>Config_get E ''Storage'' ''TempDirectory'' = Inr temp_dir\<close> w1
      show ?thesis by (simp add: emit_def Let_def)
    qed
  qed
qed

lemma analyze_data_error_files:
  assumes "analyze_data E now jaws casemgr w = (Some e, w')"
  shows "files w' = files w \<and> stdout w' = stdout w"
proof (cases "discrepancies_of E jaws casemgr")
  case (Inl a)
  with assms show ?thesis by (simp add: analyze_data_def)
next
  case (Inr d)
  with assms have "emit E now d w = (Some e, w')" by (simp add: analyze_data_def)
  then show ?thesis by (rule emit_error_files)
qed

text \<open>
  Claim C9. A row of the sheet \<^verbatim>\<open>Casemgr\<close> whose \<^verbatim>\<open>CASE_DATA\<close> is text that
  \<^verbatim>\<open>json.loads\<close> rejects ends \<^verbatim>\<open>analyze_data\<close> with the exception of \<^verbatim>\<open>json.loads\<close>
  (JSONDecodeError, or TypeError when an earlier row has no text in \<^verbatim>\<open>CASE_DATA\<close>)
  and leaves the world as it was. Whenever process, merge or compare raise, the
  world is untouched; whenever the run ends with an exception, no spreadsheet has
  been written and nothing printed; and a run that ends without exception has
  computed the discrepancy set first.
\<close>

theorem analyze_data_no_partial_report:
  "(\<forall>r s. r \<in> set casemgr_data \<and> CASE_DATA r = Str s \<and> loads E s = None \<longrightarrow>
      (\<exists>e. analyze_data E now jaws_data casemgr_data w = (Some e, w) \<and>
           (e = JSONDecodeError \<or> e = TypeError) \<and>
           ((\<forall>r'\<in>set casemgr_data. CASE_DATA r' \<noteq> NaN) \<longrightarrow> e = JSONDecodeError))) \<and>
   (\<forall>e. discrepancies_of E jaws_data casemgr_data = Inl e \<longrightarrow>
      analyze_data E now jaws_data casemgr_data w = (Some e, w)) \<and>
   (\<forall>e w'. analyze_data E now jaws_data casemgr_data w = (Some e, w') \<longrightarrow>
      files w' = files w \<and> stdout w' = stdout w) \<and>
   (\<forall>w'. analyze_data E now jaws_data casemgr_data w = (None, w') \<longrightarrow>
      (\<exists>d. discrepancies_of E jaws_data casemgr_data = Inr d))"
proof (intro conjI allI impI)
  fix r s
  assume h: "r \<in> set casemgr_data \<and> CASE_DATA r = Str s \<and> loads E s = None"
  then have "json_loads (loads E) (CASE_DATA r) = Inl JSONDecodeError"
    by (simp add: json_loads_def)
  with h obtain e where e: "apply_loads (loads E) casemgr_data = Inl e"
    using apply_loads_raises by blast
  then obtain r' where r': "r' \<in> set casemgr_data" "json_loads (loads E) (CASE_DATA r') = Inl e"
    using apply_loads_Inl by blast
  from e have "analyze_data E now jaws_data casemgr_data w = (Some e, w)"
    by (intro analyze_data_Inl discrepancies_of_loads_Inl)
  moreover from r'(2) have "e = JSONDecodeError \<or> e = TypeError" by (rule json_loads_Inl)
  moreover have "(\<forall>r'\<in>set casemgr_data. CASE_DATA r' \<noteq> NaN) \<longrightarrow> e = JSONDecodeError"
    using r' json_loads_text_Inl by blast
  ultimately show "\<exists>e. analyze_data E now jaws_data casemgr_data w = (Some e, w) \<and>
           (e = JSONDecodeError \<or> e = TypeError) \<and>
           ((\<forall>r'\<in>set casemgr_data. CASE_DATA r' \<noteq> NaN) \<longrightarrow> e = JSONDecodeError)"
    by blast
next
  fix e assume "discrepancies_of E jaws_data casemgr_data = Inl e"
  then show "analyze_data E now jaws_data casemgr_data w = (Some e, w)" by (rule analyze_data_Inl)
next
  fix e w' assume a: "analyze_data E now jaws_data casemgr_data w = (Some e, w')"
  from analyze_data_error_files[OF a] show "files w' = files w" "stdout w' = stdout w" by simp_all
next
  fix w' assume "analyze_data E now jaws_data casemgr_data w = (None, w')"
  then show "\<exists>d. discrepancies_of E jaws_data casemgr_data = Inr d"
    by (cases "discrepancies_of E jaws_data casemgr_data") (simp_all add: analyze_data_def)
qed

theorem analyze_data_no_partial_report_witness:
  "demo_casemgr ''not json'' ''A3SYM3B3OTHER'' ''OPEN'' \<in> set demo_bad
   \<and> CASE_DATA (demo_casemgr ''not json'' ''A3SYM3B3OTHER'' ''OPEN'') = Str ''not json''
   \<and> loads demo_env ''not json'' = None
   \<and> analyze_data demo_env demo_now demo_jaws_data demo_bad demo_world
        = (Some JSONDecodeError, demo_world)
   \<and> files (snd (analyze_data demo_env demo_now demo_jaws_data demo_bad demo_world)) = Map.empty"
proof -
  have 1: "demo_casemgr ''not json'' ''A3SYM3B3OTHER'' ''OPEN'' \<in> set demo_bad"
    and 2: "CASE_DATA (demo_casemgr ''not json'' ''A3SYM3B3OTHER'' ''OPEN'') = Str ''not json''"
    and 3: "loads demo_env ''not json'' = None"
    and 4: "\<forall>r'\<in>set demo_bad. CASE_DATA r' \<noteq> NaN"
    by (simp_all add: demo_bad_def demo_casemgr_def demo_env_def demo_loads_def)
  from analyze_data_no_partial_report [of demo_bad demo_env demo_now demo_jaws_data demo_world] 1 2 3 4
  have 5: "analyze_data demo_env demo_now demo_jaws_data demo_bad demo_world
        = (Some JSONDecodeError, demo_world)" by blast
  then have "files (snd (analyze_data demo_env demo_now demo_jaws_data demo_bad demo_world)) = Map.empty"
    by (simp add: demo_world_def)
  with 1 2 3 5 show ?thesis by blast
qed

section \<open>The full run falls back to the local run\<close>



lemma demo_local_report:
  "files (snd (execute_locally demo_env demo_now demo_world))
     [''tmp'', ''recon'', ''JAWSCasemgrRecon_20261104_170005.xlsx'']
   = Some \<lparr>index_column = False, sheet_rows = compare_data
       (case merge_data demo_map demo_processed_case demo_processed_jaws of Inr m \<Rightarrow> m | Inl e \<Rightarrow> [])\<rparr>"
  by code_simp


section \<open>Emit: the directory and the file of the report\<close>

lemma str_split_append_sep:
  "str_split sep (a @ sep # b) = str_split sep a @ str_split sep b"
proof (induction a)
  case Nil
  then show ?case by simp
next
  case (Cons x xs)
  then show ?case
    using str_split_not_Nil[of sep xs]
    by (cases "str_split sep xs") (auto split: list.splits)
qed

lemma str_split_no_sep: "sep \<notin> set b \<Longrightarrow> str_split sep b = [b]"
  by (induction b) auto

lemma components_append_sep:
  "CHR ''/'' \<notin> set name \<Longrightarrow> name \<noteq> [] \<Longrightarrow>
     components (a @ CHR ''/'' # name) = components a @ [name]"
  by (simp add: components_def str_split_append_sep str_split_no_sep)

lemma components_trailing_sep: "components (a @ [CHR ''/'']) = components a"
  using str_split_append_sep[of "CHR ''/''" a "[]"] by (simp add: components_def)

lemma components_join:
  assumes "CHR ''/'' \<notin> set name" "name \<noteq> []"
  shows "components (os_path_join d name) = components d @ [name]"
proof -
  from assms have hd: "hd name \<noteq> CHR ''/''" by (cases name) auto
  show ?thesis
  proof (cases "d = []")
    case True
    with assms hd show ?thesis
      by (simp add: os_path_join_def components_def str_split_no_sep)
  next
    case False
    show ?thesis
    proof (cases "last d = CHR ''/''")
      case True
      with False obtain a where a: "d = a @ [CHR ''/'']"
        by (metis append_butlast_last_id)
      have "os_path_join d name = a @ CHR ''/'' # name"
        using hd True False a by (simp add: os_path_join_def)
      then show ?thesis
        using components_append_sep[OF assms, of a] components_trailing_sep[of a] a by simp
    next
      case nl: False
      have "os_path_join d name = d @ CHR ''/'' # name"
        using hd nl False by (simp add: os_path_join_def)
      then show ?thesis using components_append_sep[OF assms, of d] by simp
    qed
  qed
qed

declare dec.simps [simp del]

lemma of_char_digit_char: "n < 10 \<Longrightarrow> (of_char (digit_char n) :: nat) = 48 + n"
  by (simp add: digit_char_def of_char_of)

lemma is_digit_digit_char: "n < 10 \<Longrightarrow> is_digit (digit_char n)"
  by (simp add: is_digit_def of_char_digit_char)

lemma is_digit_dec: "list_all is_digit (dec n)"
proof (induction n rule: dec.induct)
  case (1 n)
  show ?case
  proof (cases "n < 10")
    case True
    then show ?thesis by (simp add: dec.simps[of n] is_digit_digit_char)
  next
    case False
    with 1 show ?thesis by (simp add: dec.simps[of n] is_digit_digit_char)
  qed
qed

lemma is_digit_zfill: "list_all is_digit s \<Longrightarrow> list_all is_digit (zfill k s)"
  by (auto simp: zfill_def list_all_iff is_digit_def)

lemma length_dec_1: "n < 10 \<Longrightarrow> length (dec n) = 1"
  by (simp add: dec.simps[of n])

lemma length_dec_2: "10 \<le> n \<Longrightarrow> n < 100 \<Longrightarrow> length (dec n) = 2"
  by (simp add: dec.simps[of n] length_dec_1)

lemma length_dec_3: "100 \<le> n \<Longrightarrow> n < 1000 \<Longrightarrow> length (dec n) = 3"
  by (simp add: dec.simps[of n] length_dec_2)

lemma length_dec_4: "1000 \<le> n \<Longrightarrow> n < 10000 \<Longrightarrow> length (dec n) = 4"
  by (simp add: dec.simps[of n] length_dec_3)

lemma length_zfill_2: "n < 100 \<Longrightarrow> length (zfill 2 (dec n)) = 2"
  by (cases "n < 10") (simp_all add: zfill_def length_dec_1 length_dec_2)

lemma is_digit_slash: "is_digit c \<Longrightarrow> c \<noteq> CHR ''/''"
  by (auto simp: is_digit_def)

lemma output_name_format:
  assumes "1000 \<le> year now" "year now < 10000" "month now < 100" "day now < 100"
    "hour now < 100" "minute now < 100" "second now < 100"
  shows "\<exists>d t. output_name now = ''JAWSCasemgrRecon_'' @ d @ ''_'' @ t @ ''.xlsx'' \<and>
           length d = 8 \<and> length t = 6 \<and> list_all is_digit d \<and> list_all is_digit t"
proof -
  let ?d = "dec (year now) @ zfill 2 (dec (month now)) @ zfill 2 (dec (day now))"
  let ?t = "zfill 2 (dec (hour now)) @ zfill 2 (dec (minute now)) @ zfill 2 (dec (second now))"
  have 1: "output_name now = ''JAWSCasemgrRecon_'' @ ?d @ ''_'' @ ?t @ ''.xlsx''"
    by (simp add: output_name_def strftime_file_def)
  have 2: "length ?d = 8" using assms by (simp add: length_dec_4 length_zfill_2)
  have 3: "length ?t = 6" using assms by (simp add: length_zfill_2)
  have 4: "list_all is_digit ?d" "list_all is_digit ?t"
    by (simp_all add: is_digit_dec is_digit_zfill)
  from 1 2 3 4 show ?thesis by blast
qed

lemma output_name_no_slash: "CHR ''/'' \<notin> set (output_name now)"
proof -
  have "\<And>n. CHR ''/'' \<notin> set (dec n)"
    using is_digit_dec is_digit_slash by (fastforce simp: list_all_iff)
  moreover have "\<And>n. CHR ''/'' \<notin> set (zfill 2 (dec n))"
    using is_digit_dec is_digit_zfill is_digit_slash by (fastforce simp: list_all_iff)
  ultimately show ?thesis
    by (simp add: output_name_def strftime_file_def)
qed

lemma output_name_not_Nil: "output_name now \<noteq> []"
  by (simp add: output_name_def)

lemma self_in_ancestors: "p \<noteq> [] \<Longrightarrow> p \<in> set (ancestors p)"
proof -
  assume "p \<noteq> []"
  then have "length p \<in> {1..<Suc (length p)}" by (cases p) auto
  then have "take (length p) p \<in> set (ancestors p)"
    unfolding ancestors_def set_map set_upt by (rule imageI)
  then show ?thesis by simp
qed

lemma longer_not_in_ancestors: "p @ [x] \<notin> set (ancestors p)"
proof
  assume "p @ [x] \<in> set (ancestors p)"
  then obtain n where "p @ [x] = take n p" by (auto simp: ancestors_def)
  then have "length (p @ [x]) = length (take n p)" by simp
  then show False by simp
qed

lemma dec_lt10: "n < 10 \<Longrightarrow> dec n = [digit_char n]"
  by (subst dec.simps) simp

lemma dec_ge10: "10 \<le> n \<Longrightarrow> dec n = dec (n div 10) @ [digit_char (n mod 10)]"
  by (subst dec.simps) simp

lemma digit_char_0: "digit_char 0 = CHR ''0''"
  by code_simp

lemma dec_two: "10 \<le> n \<Longrightarrow> n < 100 \<Longrightarrow> dec n = [digit_char (n div 10), digit_char (n mod 10)]"
proof -
  assume a: "10 \<le> n" "n < 100"
  then have "n div 10 < 10" by simp
  then have "dec (n div 10) = [digit_char (n div 10)]" by (rule dec_lt10)
  with dec_ge10[OF a(1)] show ?thesis by simp
qed

lemma zfill_dec_two: "n < 100 \<Longrightarrow> zfill 2 (dec n) = [digit_char (n div 10), digit_char (n mod 10)]"
proof (cases "n < 10")
  case True
  then show ?thesis by (simp add: dec_lt10 zfill_def digit_char_0)
next
  case False
  then show "n < 100 \<Longrightarrow> ?thesis" by (simp add: dec_two zfill_def)
qed

lemma dec_four:
  assumes "1000 \<le> n" "n < 10000"
  shows "dec n = [digit_char (n div 1000), digit_char (n div 100 mod 10),
                  digit_char (n div 10 mod 10), digit_char (n mod 10)]"
proof -
  have a: "n div 10 div 10 = n div 100" "n div 100 div 10 = n div 1000"
    by (simp_all add: div_mult2_eq[symmetric])
  from assms have 1: "dec n = dec (n div 10) @ [digit_char (n mod 10)]"
    by (intro dec_ge10) simp
  from assms have 2: "dec (n div 10) = dec (n div 100) @ [digit_char (n div 10 mod 10)]"
    using dec_ge10[of "n div 10"] by (simp add: a)
  from assms have 3: "dec (n div 100) = dec (n div 1000) @ [digit_char (n div 100 mod 10)]"
    using dec_ge10[of "n div 100"] by (simp add: a)
  from assms have 4: "dec (n div 1000) = [digit_char (n div 1000)]"
    by (intro dec_lt10) simp
  show ?thesis unfolding 1 2 3 4 by simp
qed

lemma output_name_fields:
  assumes "1000 \<le> year now" "year now < 10000" "month now < 100" "day now < 100"
    "hour now < 100" "minute now < 100" "second now < 100"
  shows "output_name now =
     ''JAWSCasemgrRecon_''
     @ map (\<lambda>n. char_of (48 + n))
         [year now div 1000, year now div 100 mod 10, year now div 10 mod 10, year now mod 10,
          month now div 10, month now mod 10, day now div 10, day now mod 10]
     @ ''_''
     @ map (\<lambda>n. char_of (48 + n))
         [hour now div 10, hour now mod 10, minute now div 10, minute now mod 10,
          second now div 10, second now mod 10]
     @ ''.xlsx''"
  using assms
  by (simp add: output_name_def strftime_file_def dec_four zfill_dec_two digit_char_def)

text \<open>
  Claim C8. With the temp directory configured under \<^verbatim>\<open>Storage\<close>, \<^verbatim>\<open>TempDirectory\<close>, no
  file standing in its way and no directory in the place of the report, the emit
  step returns without exception. A temp directory that exists is left as it is;
  one that does not is created with every directory above it. The only file
  written is the report, inside the temp directory under the name
  \<^verbatim>\<open>JAWSCasemgrRecon_\<close>, the clock as eight digits, \<^verbatim>\<open>_\<close>, six digits, \<^verbatim>\<open>.xlsx\<close>; it
  holds the discrepancy set without index column, and the set is printed. The
  eight digits are the year, the month and the day of the clock reading, the six
  digits its hour, minute and second, each written in decimal, the year on four
  places and the others on two.
\<close>

theorem emit_writes_report:
  assumes "Config_get E ''Storage'' ''TempDirectory'' = Inr temp_dir"
    and "temp_dir \<noteq> []"
    and "\<not> list_ex (is_file w) (ancestors (components temp_dir))"
    and "\<not> is_dir w (components temp_dir @ [output_name now])"
  shows "emit E now discrepancies w =
           (None, w\<lparr>dirs := (if is_dir w (components temp_dir) then dirs w
                            else dirs w \<union> set (ancestors (components temp_dir))),
                    files := (files w)(components temp_dir @ [output_name now] \<mapsto>
                                \<lparr>index_column = False, sheet_rows = discrepancies\<rparr>),
                    stdout := stdout w @ [discrepancies]\<rparr>)
         \<and> output_name now = ''JAWSCasemgrRecon_'' @ strftime_file now @ ''.xlsx''
         \<and> (1000 \<le> year now \<and> year now < 10000 \<and> month now < 100 \<and> day now < 100 \<and>
            hour now < 100 \<and> minute now < 100 \<and> second now < 100 \<longrightarrow>
              output_name now =
                ''JAWSCasemgrRecon_''
                @ map (\<lambda>n. char_of (48 + n))
                    [year now div 1000, year now div 100 mod 10, year now div 10 mod 10,
                     year now mod 10, month now div 10, month now mod 10,
                     day now div 10, day now mod 10]
                @ ''_''
                @ map (\<lambda>n. char_of (48 + n))
                    [hour now div 10, hour now mod 10, minute now div 10, minute now mod 10,
                     second now div 10, second now mod 10]
                @ ''.xlsx'' \<and>
              (\<exists>d t. output_name now = ''JAWSCasemgrRecon_'' @ d @ ''_'' @ t @ ''.xlsx'' \<and>
                 length d = 8 \<and> length t = 6 \<and> list_all is_digit d \<and> list_all is_digit t))"
proof -
  let ?p = "components temp_dir"
  let ?name = "output_name now"
  let ?f = "components (os_path_join temp_dir ?name)"
  have f: "?f = ?p @ [?name]"
    by (rule components_join[OF output_name_no_slash output_name_not_Nil])
  have emit: "emit E now discrepancies w =
           (None, w\<lparr>dirs := (if is_dir w ?p then dirs w else dirs w \<union> set (ancestors ?p)),
                    files := (files w)(?p @ [?name] \<mapsto>
                                \<lparr>index_column = False, sheet_rows = discrepancies\<rparr>),
                    stdout := stdout w @ [discrepancies]\<rparr>)"
  proof (cases "is_dir w ?p")
    case True
    then have ex: "os_path_exists w temp_dir" using assms(2) by (simp add: os_path_exists_def)
    have "to_excel discrepancies (os_path_join temp_dir ?name) False w =
            Inr (w\<lparr>files := (files w)(?p @ [?name] \<mapsto>
                                \<lparr>index_column = False, sheet_rows = discrepancies\<rparr>)\<rparr>)"
      unfolding to_excel_def Let_def f using True assms(4) by simp
    then show ?thesis
      unfolding emit_def Let_def using assms(1) ex True by simp
  next
    case False
    then have ne: "?p \<noteq> []" by (auto simp: is_dir_def)
    from self_in_ancestors[OF ne] assms(3) have nf: "\<not> is_file w ?p"
      by (auto simp: list_ex_iff)
    from False nf have ex: "\<not> os_path_exists w temp_dir" by (simp add: os_path_exists_def)
    let ?w1 = "w\<lparr>dirs := dirs w \<union> set (ancestors ?p)\<rparr>"
    have mk: "os_makedirs temp_dir w = Inr ?w1"
      unfolding os_makedirs_def Let_def using assms(2,3) False nf by simp
    have d1: "is_dir ?w1 ?p" using self_in_ancestors[OF ne] by (simp add: is_dir_def)
    have d2: "\<not> is_dir ?w1 (?p @ [?name])"
      using assms(4) longer_not_in_ancestors[of ?p ?name] by (simp add: is_dir_def)
    have "to_excel discrepancies (os_path_join temp_dir ?name) False ?w1 =
            Inr (?w1\<lparr>files := (files ?w1)(?p @ [?name] \<mapsto>
                                \<lparr>index_column = False, sheet_rows = discrepancies\<rparr>)\<rparr>)"
      unfolding to_excel_def Let_def f using d1 d2 by simp
    then show ?thesis
      unfolding emit_def Let_def using assms(1) ex mk False by simp
  qed
  have name: "output_name now = ''JAWSCasemgrRecon_'' @ strftime_file now @ ''.xlsx''"
    by (simp add: output_name_def)
  from emit name output_name_format[of now] output_name_fields[of now] show ?thesis by blast
qed

lemma demo_components: "components ''/tmp/recon'' = [''tmp'', ''recon'']"
  by code_simp

lemma demo_output_name: "output_name demo_now = ''JAWSCasemgrRecon_20261104_170005.xlsx''"
  by code_simp

theorem emit_writes_report_witness:
  "Config_get demo_env ''Storage'' ''TempDirectory'' = Inr ''/tmp/recon''
   \<and> ''/tmp/recon'' \<noteq> []
   \<and> \<not> list_ex (is_file demo_world) (ancestors (components ''/tmp/recon''))
   \<and> \<not> is_dir demo_world (components ''/tmp/recon'' @ [output_name demo_now])
   \<and> fst (emit demo_env demo_now demo_merged_df demo_world) = None
   \<and> dirs (snd (emit demo_env demo_now demo_merged_df demo_world)) = {[''tmp''], [''tmp'', ''recon'']}
   \<and> files (snd (emit demo_env demo_now demo_merged_df demo_world))
         [''tmp'', ''recon'', ''JAWSCasemgrRecon_20261104_170005.xlsx'']
       = Some \<lparr>index_column = False, sheet_rows = demo_merged_df\<rparr>
   \<and> stdout (snd (emit demo_env demo_now demo_merged_df demo_world)) = [demo_merged_df]
   \<and> output_name demo_now = ''JAWSCasemgrRecon_20261104_170005.xlsx''
   \<and> output_name demo_updated_time = ''JAWSCasemgrRecon_20261104_163005.xlsx''
   \<and> fst (emit demo_env demo_now demo_merged_df demo_world_dir) = None
   \<and> dirs (snd (emit demo_env demo_now demo_merged_df demo_world_dir)) = dirs demo_world_dir"
proof -
  have 1: "Config_get demo_env ''Storage'' ''TempDirectory'' = Inr ''/tmp/recon''"
    by (simp add: demo_env_def demo_config_def)
  have 2: "''/tmp/recon'' \<noteq> []" by simp
  have 3: "\<not> list_ex (is_file demo_world) (ancestors (components ''/tmp/recon''))"
    and w3: "\<not> list_ex (is_file demo_world_dir) (ancestors (components ''/tmp/recon''))"
    by (simp_all add: list_ex_iff is_file_def demo_world_def demo_world_dir_def)
  have 4: "\<not> is_dir demo_world (components ''/tmp/recon'' @ [output_name demo_now])"
    and w4: "\<not> is_dir demo_world_dir (components ''/tmp/recon'' @ [output_name demo_now])"
    by (simp_all add: is_dir_def demo_world_def demo_world_dir_def demo_components)
  have a: "ancestors [''tmp'', ''recon''] = [[''tmp''], [''tmp'', ''recon'']]"
    by code_simp
  have d: "\<not> is_dir demo_world [''tmp'', ''recon'']" "is_dir demo_world_dir [''tmp'', ''recon'']"
    by (simp_all add: is_dir_def demo_world_def demo_world_dir_def)
  have u4: "\<not> is_dir demo_world (components ''/tmp/recon'' @ [output_name demo_updated_time])"
    by (simp add: is_dir_def demo_world_def demo_components)
  note t = emit_writes_report [OF 1 2 3 4, of demo_merged_df]
  note u = emit_writes_report [OF 1 2 3 u4, of demo_merged_df]
  have clock: "1000 \<le> year demo_now \<and> year demo_now < 10000 \<and> month demo_now < 100 \<and>
      day demo_now < 100 \<and> hour demo_now < 100 \<and> minute demo_now < 100 \<and> second demo_now < 100"
    "1000 \<le> year demo_updated_time \<and> year demo_updated_time < 10000 \<and>
      month demo_updated_time < 100 \<and> day demo_updated_time < 100 \<and>
      hour demo_updated_time < 100 \<and> minute demo_updated_time < 100 \<and>
      second demo_updated_time < 100"
    by (simp_all add: demo_now_def demo_updated_time_def)
  have lit: "''JAWSCasemgrRecon_''
      @ map (\<lambda>n. char_of (48 + n))
          [year demo_now div 1000, year demo_now div 100 mod 10, year demo_now div 10 mod 10,
           year demo_now mod 10, month demo_now div 10, month demo_now mod 10,
           day demo_now div 10, day demo_now mod 10]
      @ ''_''
      @ map (\<lambda>n. char_of (48 + n))
          [hour demo_now div 10, hour demo_now mod 10, minute demo_now div 10,
           minute demo_now mod 10, second demo_now div 10, second demo_now mod 10]
      @ ''.xlsx'' = ''JAWSCasemgrRecon_20261104_170005.xlsx''"
    "''JAWSCasemgrRecon_''
      @ map (\<lambda>n. char_of (48 + n))
          [year demo_updated_time div 1000, year demo_updated_time div 100 mod 10,
           year demo_updated_time div 10 mod 10, year demo_updated_time mod 10,
           month demo_updated_time div 10, month demo_updated_time mod 10,
           day demo_updated_time div 10, day demo_updated_time mod 10]
      @ ''_''
      @ map (\<lambda>n. char_of (48 + n))
          [hour demo_updated_time div 10, hour demo_updated_time mod 10,
           minute demo_updated_time div 10, minute demo_updated_time mod 10,
           second demo_updated_time div 10, second demo_updated_time mod 10]
      @ ''.xlsx'' = ''JAWSCasemgrRecon_20261104_163005.xlsx''"
    by code_simp+
  from t clock(1) lit(1) have n1: "output_name demo_now = ''JAWSCasemgrRecon_20261104_170005.xlsx''"
    by metis
  from u clock(2) lit(2)
  have n2: "output_name demo_updated_time = ''JAWSCasemgrRecon_20261104_163005.xlsx''"
    by metis
  note t' = emit_writes_report [OF 1 2 w3 w4, of demo_merged_df]
  from t have e: "emit demo_env demo_now demo_merged_df demo_world =
      (None, demo_world\<lparr>dirs := {[''tmp''], [''tmp'', ''recon'']},
          files := (files demo_world)([''tmp'', ''recon'', ''JAWSCasemgrRecon_20261104_170005.xlsx''] \<mapsto>
                      \<lparr>index_column = False, sheet_rows = demo_merged_df\<rparr>),
          stdout := stdout demo_world @ [demo_merged_df]\<rparr>)"
    using d(1) by (simp add: demo_components demo_output_name a demo_world_def insert_commute)
  from t' have e': "emit demo_env demo_now demo_merged_df demo_world_dir =
      (None, demo_world_dir\<lparr>dirs := dirs demo_world_dir,
          files := (files demo_world_dir)([''tmp'', ''recon'', ''JAWSCasemgrRecon_20261104_170005.xlsx''] \<mapsto>
                      \<lparr>index_column = False, sheet_rows = demo_merged_df\<rparr>),
          stdout := stdout demo_world_dir @ [demo_merged_df]\<rparr>)"
    using d(2) by (simp add: demo_components demo_output_name)
  from e have 5: "fst (emit demo_env demo_now demo_merged_df demo_world) = None"
    and 6: "dirs (snd (emit demo_env demo_now demo_merged_df demo_world)) = {[''tmp''], [''tmp'', ''recon'']}"
    and 7: "files (snd (emit demo_env demo_now demo_merged_df demo_world))
         [''tmp'', ''recon'', ''JAWSCasemgrRecon_20261104_170005.xlsx'']
       = Some \<lparr>index_column = False, sheet_rows = demo_merged_df\<rparr>"
    and 8: "stdout (snd (emit demo_env demo_now demo_merged_df demo_world)) = [demo_merged_df]"
    by (simp_all add: demo_world_def)
  from e' have 9: "fst (emit demo_env demo_now demo_merged_df demo_world_dir) = None"
    and 10: "dirs (snd (emit demo_env demo_now demo_merged_df demo_world_dir)) = dirs demo_world_dir"
    by simp_all
  from 1 2 3 4 5 6 7 8 9 10 n1 n2 show ?thesis by blast
qed

end
